theory Spec2Isabelle
  imports Complex_Main "HOL-Library.AList"
begin

chapter \<open>The model\<close>

section \<open>JavaScript numbers\<close>

text \<open>
  The detector computes with JavaScript numbers. They are modelled as real numbers:
  rounding, signed zeros and non-finite inputs are outside the model. The one place where
  finite inputs produce a non-finite value is a division by zero, so the quotient of two
  reals is a \<open>jsnum\<close>, which keeps \<open>Infinity\<close>, \<open>-Infinity\<close> and \<open>NaN\<close> apart from the
  finite results.
\<close>

datatype jsnum = Num real | PosInfinity | NegInfinity | NaN

definition js_div :: "real \<Rightarrow> real \<Rightarrow> jsnum" where
  "js_div a b =
     (if b \<noteq> 0 then Num (a / b)
      else if 0 < a then PosInfinity
      else if a < 0 then NegInfinity
      else NaN)"

text \<open>The remainder operator \<open>a % b\<close> truncates the quotient towards zero (used with \<open>b = 360\<close>).\<close>

definition js_rem :: "real \<Rightarrow> real \<Rightarrow> real" where
  "js_rem a b = a - b * of_int (if a / b < 0 then \<lceil>a / b\<rceil> else \<lfloor>a / b\<rfloor>)"

text \<open>\<open>Math.abs\<close>, \<open>Math.min(_, 1)\<close> and the comparisons, on a quotient.\<close>

fun js_abs_one_minus :: "jsnum \<Rightarrow> jsnum" where
  "js_abs_one_minus (Num v) = Num \<bar>1 - v\<bar>"
| "js_abs_one_minus PosInfinity = PosInfinity"
| "js_abs_one_minus NegInfinity = PosInfinity"
| "js_abs_one_minus NaN = NaN"

fun js_min_one :: "jsnum \<Rightarrow> jsnum" where
  "js_min_one (Num v) = Num (min v 1)"
| "js_min_one PosInfinity = Num 1"
| "js_min_one NegInfinity = NegInfinity"
| "js_min_one NaN = NaN"

fun js_ge :: "jsnum \<Rightarrow> real \<Rightarrow> bool" where
  "js_ge (Num v) t = (t \<le> v)"
| "js_ge PosInfinity t = True"
| "js_ge NegInfinity t = False"
| "js_ge NaN t = False"

fun js_lt :: "jsnum \<Rightarrow> real \<Rightarrow> bool" where
  "js_lt (Num v) t = (v < t)"
| "js_lt PosInfinity t = False"
| "js_lt NegInfinity t = True"
| "js_lt NaN t = False"

fun js_gt :: "jsnum \<Rightarrow> real \<Rightarrow> bool" where
  "js_gt (Num v) t = (t < v)"
| "js_gt PosInfinity t = True"
| "js_gt NegInfinity t = False"
| "js_gt NaN t = False"

text \<open>
  \<open>Math.atan2(b, a)\<close>: the angle of the vector \<open>(a, b)\<close> in \<open>(-\<pi>, \<pi>]\<close>, and \<open>0\<close> at the
  origin.
\<close>

definition atan2 :: "real \<Rightarrow> real \<Rightarrow> real" where
  "atan2 b a =
     (if 0 < a then arctan (b / a)
      else if a < 0 then (if 0 \<le> b then arctan (b / a) + pi else arctan (b / a) - pi)
      else if 0 < b then pi / 2
      else if b < 0 then - (pi / 2)
      else 0)"


section \<open>Samples and detection results\<close>

record point =
  x :: real
  y :: real

text \<open>A pointer sample \<open>{x, y, timestamp, pressure}\<close> of \<open>mouseHistory\<close>.\<close>

record sample = point +
  timestamp :: real
  pressure :: real

text \<open>A touch contact \<open>{id, start, current, timestamp}\<close> of \<open>touchHistory\<close>.\<close>

record touch =
  id :: nat
  start :: point
  current :: point
  touch_timestamp :: real

record circle_options =
  radius :: real
  tolerance :: real

text \<open>
  \<open>direction\<close> is a string, or \<open>null\<close>/\<open>undefined\<close> (\<open>None\<close>) when the caller leaves it
  out.
\<close>

record swipe_options =
  direction :: "string option"
  minDistance :: real
  maxTime :: real

record zigzag_options =
  minPoints :: real
  amplitude :: real

record pinch_options =
  threshold :: real

record line_options =
  minLength :: real
  maxDeviation :: real

text \<open>
  The objects the detectors return, one constructor for each shape:
  \<^item> \<open>NoMatch\<close> is \<open>{matches: false}\<close>;
  \<^item> \<open>CircleResult matches confidence radius center points coverage\<close>, the last two being
    the \<open>metadata\<close>;
  \<^item> \<open>SwipeResult matches direction distance duration velocity angle\<close>;
  \<^item> \<open>ZigzagResult matches changes avgAmplitude confidence\<close>;
  \<^item> \<open>PinchResult matches scale scaleChange isPinchIn isPinchOut\<close>;
  \<^item> \<open>CustomResult matches confidence\<close>, what the dispatcher reads of an object returned by
    a user-supplied detection function (\<open>confidence\<close> may be missing).
\<close>

datatype detection_result =
    NoMatch
  | CircleResult bool real jsnum point nat real
  | SwipeResult bool string real real jsnum real
  | ZigzagResult bool nat real jsnum
  | PinchResult bool jsnum jsnum bool bool
  | CustomResult bool "real option"

text \<open>\<open>result.matches\<close>, as a truth value.\<close>

fun matches :: "detection_result \<Rightarrow> bool" where
  "matches NoMatch = False"
| "matches (CircleResult m _ _ _ _ _) = m"
| "matches (SwipeResult m _ _ _ _ _) = m"
| "matches (ZigzagResult m _ _ _) = m"
| "matches (PinchResult m _ _ _ _) = m"
| "matches (CustomResult m _) = m"

text \<open>\<open>result.confidence || 0\<close>: a missing confidence, \<open>NaN\<close> and \<open>0\<close> all give \<open>0\<close>.\<close>

fun confidence_or_0 :: "detection_result \<Rightarrow> real" where
  "confidence_or_0 (CircleResult _ c _ _ _ _) = c"
| "confidence_or_0 (ZigzagResult _ _ _ (Num c)) = c"
| "confidence_or_0 (CustomResult _ (Some c)) = c"
| "confidence_or_0 _ = 0"


section \<open>Helper methods\<close>

definition distance :: "'a point_scheme \<Rightarrow> 'b point_scheme \<Rightarrow> real" where
  "distance p1 p2 = sqrt ((x p1 - x p2)\<^sup>2 + (y p1 - y p2)\<^sup>2)"

text \<open>
  \<open>calculateCentroid\<close> reduces the points to the sums of their coordinates and divides by
  the number of points. Its only caller passes at least eight points; on an empty list
  JavaScript yields \<open>NaN\<close> coordinates, which a \<open>point\<close> cannot hold.
\<close>

definition calculateCentroid :: "sample list \<Rightarrow> point" where
  "calculateCentroid points =
     (let sum = foldl (\<lambda>acc p. \<lparr>x = x acc + x p, y = y acc + y p\<rparr>) \<lparr>x = 0, y = 0\<rparr> points
      in \<lparr>x = x sum / real (length points), y = y sum / real (length points)\<rparr>)"

definition calculateAngle :: "'a point_scheme \<Rightarrow> 'b point_scheme \<Rightarrow> real" where
  "calculateAngle start_p end_p = atan2 (y end_p - y start_p) (x end_p - x start_p) * 180 / pi"

definition angleToDirection :: "real \<Rightarrow> string" where
  "angleToDirection angle =
     (let normalized = js_rem (js_rem angle 360 + 360) 360
      in if normalized < 45 \<or> 315 \<le> normalized then ''right''
         else if normalized < 135 then ''down''
         else if normalized < 225 then ''left''
         else ''up'')"


section \<open>Gesture detection algorithms\<close>

text \<open>
  The loop of \<open>detectMouseCircle\<close> carries \<open>radiusSum\<close> and \<open>validPoints\<close> through the
  points.
\<close>

fun circle_loop :: "sample list \<Rightarrow> point \<Rightarrow> circle_options \<Rightarrow> real \<times> nat \<Rightarrow> real \<times> nat" where
  "circle_loop [] c opts acc = acc"
| "circle_loop (p # ps) c opts (radiusSum, validPoints) =
     (let d = distance p c
      in circle_loop ps c opts
           (if \<bar>d - radius opts\<bar> \<le> radius opts * tolerance opts
            then (radiusSum + d, validPoints + 1)
            else (radiusSum, validPoints)))"

definition detectMouseCircle :: "sample list \<Rightarrow> circle_options \<Rightarrow> detection_result" where
  "detectMouseCircle points opts =
     (if length points < 8 then NoMatch
      else
        let c = calculateCentroid points;
            (radiusSum, validPoints) = circle_loop points c opts (0, 0);
            coverage = real validPoints / real (length points);
            avgRadius = js_div radiusSum (real validPoints)
        in CircleResult (0.7 \<le> coverage) coverage avgRadius c (length points) coverage)"

text \<open>\<open>!direction\<close>: \<open>null\<close>, \<open>undefined\<close> and the empty string are falsy.\<close>

fun js_not :: "string option \<Rightarrow> bool" where
  "js_not None = True"
| "js_not (Some s) = (s = [])"

definition detectSwipe :: "sample list \<Rightarrow> swipe_options \<Rightarrow> detection_result" where
  "detectSwipe points opts =
     (if length points < 2 then NoMatch
      else
        let start_p = hd points;
            end_p = last points;
            dist = distance start_p end_p;
            duration = timestamp end_p - timestamp start_p
        in if dist < minDistance opts \<or> maxTime opts < duration then NoMatch
           else
             let angle = calculateAngle start_p end_p;
                 detectedDirection = angleToDirection angle
             in SwipeResult (js_not (direction opts) \<or> Some detectedDirection = direction opts)
                  detectedDirection dist duration (js_div dist duration) angle)"

text \<open>
  The loop of \<open>detectMouseZigzag\<close> visits every point that has a predecessor and a
  successor and carries \<open>changes\<close> and \<open>totalAmplitude\<close>.
\<close>

fun zigzag_loop :: "sample list \<Rightarrow> nat \<times> real \<Rightarrow> nat \<times> real" where
  "zigzag_loop (prev_p # curr_p # next_p # rest) (changes, totalAmplitude) =
     (let dir1 = y curr_p - y prev_p;
          dir2 = y next_p - y curr_p
      in zigzag_loop (curr_p # next_p # rest)
           (if dir1 * dir2 < 0
            then (changes + 1, totalAmplitude + \<bar>y curr_p - y prev_p\<bar>)
            else (changes, totalAmplitude)))"
| "zigzag_loop _ acc = acc"

definition detectMouseZigzag :: "sample list \<Rightarrow> zigzag_options \<Rightarrow> detection_result" where
  "detectMouseZigzag points opts =
     (if real (length points) < minPoints opts then NoMatch
      else
        let (changes, totalAmplitude) = zigzag_loop points (0, 0);
            avgAmplitude = totalAmplitude / real (max changes 1)
        in ZigzagResult
             (minPoints opts / 2 \<le> real changes \<and> amplitude opts \<le> avgAmplitude)
             changes avgAmplitude
             (js_min_one (js_div (real changes) (minPoints opts / 2))))"

definition detectPinch :: "touch list \<Rightarrow> pinch_options \<Rightarrow> detection_result" where
  "detectPinch touches opts =
     (case touches of
        [touch1, touch2] \<Rightarrow>
          let initialDistance = distance (start touch1) (start touch2);
              currentDistance = distance (current touch1) (current touch2);
              scale = js_div currentDistance initialDistance;
              scaleChange = js_abs_one_minus scale
          in PinchResult (js_ge scaleChange (threshold opts)) scale scaleChange
               (js_lt scale 1) (js_gt scale 1)
      | _ \<Rightarrow> NoMatch)"


section \<open>The pointer history\<close>















section \<open>The circle claim in the words of the specification\<close>

text \<open>
  The centroid, the points that count, the coverage and the mean distance of the counted
  points, written as the specification words them; the detector is compared with them.
\<close>

definition centroid :: "sample list \<Rightarrow> point" where
  "centroid points =
     \<lparr>x = sum_list (map x points) / real (length points),
      y = sum_list (map y points) / real (length points)\<rparr>"

definition counts :: "circle_options \<Rightarrow> point \<Rightarrow> sample \<Rightarrow> bool" where
  "counts opts c p = (\<bar>distance p c - radius opts\<bar> \<le> radius opts * tolerance opts)"

definition counted :: "circle_options \<Rightarrow> sample list \<Rightarrow> sample list" where
  "counted opts points = filter (counts opts (centroid points)) points"

definition coverage :: "circle_options \<Rightarrow> sample list \<Rightarrow> real" where
  "coverage opts points = real (length (counted opts points)) / real (length points)"






section \<open>The swipe claim in the words of the specification\<close>





section \<open>Registrations\<close>

text \<open>
  An exception is a \<open>TypeError\<close> raised by the runtime or a value thrown by a callback. An
  operation that can be left by an exception returns an \<open>outcome\<close>: \<open>Done\<close> with the state
  it leaves, or \<open>Raised\<close> with the exception and the state at the moment it was thrown.
\<close>

datatype exn = TypeError string | Thrown string

datatype 'a outcome = Done 'a | Raised exn 'a

record sequence_step =
  step_type :: string
  step_timeout :: "real option"

text \<open>
  The options of a sequence registration. \<open>generator\<close> is the generator object made by
  \<open>createSequenceGenerator\<close>, held as the steps it has still to yield: nothing ever calls
  its \<open>next\<close>, so it stays suspended before the first step.
\<close>

record sequence_options =
  generator :: "sequence_step list"
  currentStep :: nat
  timeout :: real
  sequence :: "sequence_step list"

record stats =
  triggered :: nat
  avgConfidence :: real
  totalConfidence :: real

text \<open>The object a handler receives (without \<open>target\<close>).\<close>

record gesture_event =
  ev_name :: string
  ev_type :: string
  ev_result :: detection_result
  ev_timestamp :: real
  ev_stats :: stats

text \<open>The \<open>detail\<close> of the \<open>gesturedetected\<close> event dispatched on the target.\<close>

record gesture_detail =
  detail_name :: string
  detail_result :: detection_result
  detail_timestamp :: real
  detail_type :: string

text \<open>
  The callbacks of the application act on a world \<open>'w\<close> outside the detector. A handler
  changes the world and returns, or throws part-way; a guard condition and a custom
  detection function read the world and answer, or throw. Callbacks that re-enter the
  detector (registering or stopping gestures from inside a handler) are outside the model.
\<close>

datatype 'w handler_outcome = Returns 'w | Throws exn 'w

type_synonym 'w handler = "gesture_event \<Rightarrow> 'w \<Rightarrow> 'w handler_outcome"

type_synonym 'w condition = "'w \<Rightarrow> exn + bool"

type_synonym 'w detection_fn = "sample list \<Rightarrow> touch list \<Rightarrow> 'w \<Rightarrow> exn + detection_result"

text \<open>
  The \<open>type\<close> of a pattern together with its \<open>options\<close>. \<open>Other\<close> is any type string the
  detection pass has no case for.
\<close>

datatype 'w pattern_type =
    Mouse_circle circle_options
  | Mouse_zigzag zigzag_options
  | Mouse_line line_options
  | Swipe swipe_options
  | Pinch pinch_options
  | Sequence sequence_options
  | Custom "'w detection_fn"
  | Other string

fun type_name :: "'w pattern_type \<Rightarrow> string" where
  "type_name (Mouse_circle _) = ''mouse_circle''"
| "type_name (Mouse_zigzag _) = ''mouse_zigzag''"
| "type_name (Mouse_line _) = ''mouse_line''"
| "type_name (Swipe _) = ''swipe''"
| "type_name (Pinch _) = ''pinch''"
| "type_name (Sequence _) = ''sequence''"
| "type_name (Custom _) = ''custom''"
| "type_name (Other s) = s"

record 'w pattern =
  ptype :: "'w pattern_type"
  handlers :: "'w handler list"
  conditions :: "'w condition list"
  cooldown :: real
  lastTriggered :: real
  active :: bool
  stats :: stats

text \<open>
  The private state of the detector, as far as registration and detection use it, with
  what they act on: \<open>patterns\<close> is the \<open>Map\<close> in insertion order, \<open>world\<close> is the
  application's state, \<open>console\<close> collects the \<open>console.error\<close> calls, \<open>dispatched\<close> the
  events dispatched on the target, and \<open>invoked\<close> records every handler call by the name of
  the registration and the position of the handler.

  The methods are given as they act on the detector object itself, the target of the
  \<open>Proxy\<close> that the constructor returns. The property trap of that \<open>Proxy\<close>, which
  calls \<open>prop.startsWith\<close> on every key, the symbol \<open>PRIVATE\<close> included, is outside the
  model; so are the fields that detection does not read (\<open>rafId\<close>, \<open>listeners\<close>,
  \<open>sequenceTimers\<close>, \<open>activeGestures\<close>, \<open>performanceMode\<close>).
\<close>

record 'w detector =
  patterns :: "(string \<times> 'w pattern) list"
  touchHistory :: "touch list"
  mouseHistory :: "sample list"
  world :: 'w
  console :: "(string \<times> exn) list"
  dispatched :: "gesture_detail list"
  invoked :: "(string \<times> nat) list"

text \<open>The detector after its constructor.\<close>

definition new_detector :: "'w \<Rightarrow> 'w detector" where
  "new_detector w =
     \<lparr>patterns = [], touchHistory = [], mouseHistory = [], world = w, console = [],
      dispatched = [], invoked = []\<rparr>"

text \<open>\<open>Map.set\<close> replaces the value of a key that is present and appends a new key.\<close>

definition registerPattern :: "string \<Rightarrow> 'w pattern_type \<Rightarrow> 'w detector \<Rightarrow> 'w detector" where
  "registerPattern name t s =
     s\<lparr>patterns :=
         AList.update name
           \<lparr>ptype = t, handlers = [], conditions = [], cooldown = 100, lastTriggered = 0,
            active = False,
            stats = \<lparr>triggered = 0, avgConfidence = 0, totalConfidence = 0\<rparr>\<rparr>
           (patterns s)\<rparr>"

definition registerSequencePattern ::
    "string \<Rightarrow> sequence_step list \<Rightarrow> 'w detector \<Rightarrow> 'w detector" where
  "registerSequencePattern name eventSequence s =
     registerPattern name
       (Sequence \<lparr>generator = eventSequence, currentStep = 0, timeout = 5000,
                  sequence = eventSequence\<rparr>) s"


definition mouseLine :: "string \<Rightarrow> real \<Rightarrow> real \<Rightarrow> 'w detector \<Rightarrow> 'w detector" where
  "mouseLine name len dev s =
     registerPattern name (Mouse_line \<lparr>minLength = len, maxDeviation = dev\<rparr>) s"

definition custom :: "string \<Rightarrow> 'w detection_fn \<Rightarrow> 'w detector \<Rightarrow> 'w detector" where
  "custom name detectionFn s = registerPattern name (Custom detectionFn) s"

definition addGestureHandler :: "string \<Rightarrow> 'w handler \<Rightarrow> 'w detector \<Rightarrow> 'w detector" where
  "addGestureHandler name callback s =
     (case map_of (patterns s) name of
        None \<Rightarrow> s
      | Some p \<Rightarrow>
          s\<lparr>patterns := AList.update name (p\<lparr>handlers := handlers p @ [callback]\<rparr>) (patterns s)\<rparr>)"

definition addGestureCondition :: "string \<Rightarrow> 'w condition \<Rightarrow> 'w detector \<Rightarrow> 'w detector" where
  "addGestureCondition name cond s =
     (case map_of (patterns s) name of
        None \<Rightarrow> s
      | Some p \<Rightarrow>
          s\<lparr>patterns := AList.update name (p\<lparr>conditions := conditions p @ [cond]\<rparr>) (patterns s)\<rparr>)"

definition setGestureCooldown :: "string \<Rightarrow> real \<Rightarrow> 'w detector \<Rightarrow> 'w detector" where
  "setGestureCooldown name ms s =
     (case map_of (patterns s) name of
        None \<Rightarrow> s
      | Some p \<Rightarrow> s\<lparr>patterns := AList.update name (p\<lparr>cooldown := ms\<rparr>) (patterns s)\<rparr>)"

text \<open>
  \<open>startDetection\<close> marks one pattern, or all of them when no name (or the empty name) is
  given, as active. Attaching the listeners and starting the frame loop are outside the
  model: a detection pass is \<open>analyzeActiveGestures\<close> below.
\<close>

definition activate_all :: "'w detector \<Rightarrow> 'w detector" where
  "activate_all s = s\<lparr>patterns := map (\<lambda>(n, p). (n, p\<lparr>active := True\<rparr>)) (patterns s)\<rparr>"

definition startDetection :: "string option \<Rightarrow> 'w detector \<Rightarrow> 'w detector" where
  "startDetection patternName s =
     (case patternName of
        None \<Rightarrow> activate_all s
      | Some name \<Rightarrow>
          if name = [] then activate_all s
          else (case map_of (patterns s) name of
                  None \<Rightarrow> s
                | Some p \<Rightarrow> s\<lparr>patterns := AList.update name (p\<lparr>active := True\<rparr>) (patterns s)\<rparr>))"


section \<open>Triggering and the detection pass\<close>

text \<open>
  The handlers of a registration are called in order, each inside its own \<open>try\<close>: a
  handler that throws leaves a line on the console and the next one is called.
\<close>

fun call_handlers ::
    "string \<Rightarrow> gesture_event \<Rightarrow> nat \<Rightarrow> 'w handler list \<Rightarrow> 'w detector \<Rightarrow> 'w detector" where
  "call_handlers name ev i [] s = s"
| "call_handlers name ev i (h # hs) s =
     call_handlers name ev (Suc i) hs
       (case h ev (world s) of
          Returns w \<Rightarrow> s\<lparr>world := w, invoked := invoked s @ [(name, i)]\<rparr>
        | Throws e w \<Rightarrow>
            s\<lparr>world := w, invoked := invoked s @ [(name, i)],
              console := console s @ [(''Gesture handler error for '' @ name @ '':'', e)]\<rparr>)"

definition triggerGesture ::
    "string \<Rightarrow> detection_result \<Rightarrow> real \<Rightarrow> 'w detector \<Rightarrow> 'w detector outcome" where
  "triggerGesture name result now s =
     (case map_of (patterns s) name of
        None \<Rightarrow> Raised (TypeError ''Cannot read properties of undefined'') s
      | Some p \<Rightarrow>
          if now - lastTriggered p < cooldown p then Done s
          else
            let n = triggered (stats p) + 1;
                total = totalConfidence (stats p) + confidence_or_0 result;
                st = \<lparr>triggered = n, avgConfidence = total / real n, totalConfidence = total\<rparr>;
                p' = p\<lparr>lastTriggered := now, stats := st\<rparr>;
                s1 = s\<lparr>patterns := AList.update name p' (patterns s)\<rparr>;
                ev = \<lparr>ev_name = name, ev_type = type_name (ptype p'), ev_result = result,
                      ev_timestamp = now, ev_stats = st\<rparr>;
                s2 = call_handlers name ev 0 (handlers p') s1
            in Done (s2\<lparr>dispatched := dispatched s2 @
                       [\<lparr>detail_name = name, detail_result = result, detail_timestamp = now,
                         detail_type = type_name (ptype p')\<rparr>]\<rparr>))"

text \<open>\<open>conditions.every(condition => condition())\<close> stops at the first false condition.\<close>

fun checkConditions :: "'w condition list \<Rightarrow> 'w \<Rightarrow> exn + bool" where
  "checkConditions [] w = Inr True"
| "checkConditions (c # cs) w =
     (case c w of
        Inl e \<Rightarrow> Inl e
      | Inr ok \<Rightarrow> if ok then checkConditions cs w else Inr False)"

text \<open>
  The \<open>switch\<close> of the detection pass. There is no case for \<open>mouse_line\<close> nor for an unknown
  type: \<open>result\<close> keeps its initial value \<open>{matches: false}\<close>. The case \<open>sequence\<close> calls
  \<open>this.analyzeSequence\<close>, a method the class does not define: the call throws a
  \<open>TypeError\<close>.
\<close>

definition evaluate :: "'w pattern \<Rightarrow> 'w detector \<Rightarrow> exn + detection_result" where
  "evaluate p s =
     (case ptype p of
        Mouse_circle opts \<Rightarrow> Inr (detectMouseCircle (mouseHistory s) opts)
      | Mouse_zigzag opts \<Rightarrow> Inr (detectMouseZigzag (mouseHistory s) opts)
      | Swipe opts \<Rightarrow> Inr (detectSwipe (mouseHistory s) opts)
      | Pinch opts \<Rightarrow> Inr (detectPinch (touchHistory s) opts)
      | Custom detectionFn \<Rightarrow> detectionFn (mouseHistory s) (touchHistory s) (world s)
      | Sequence opts \<Rightarrow> Inl (TypeError ''this.analyzeSequence is not a function'')
      | Mouse_line opts \<Rightarrow> Inr NoMatch
      | Other t \<Rightarrow> Inr NoMatch)"

text \<open>
  The body of the \<open>forEach\<close> callback for the registration \<open>name\<close>. \<open>now\<close> is the reading
  of \<open>performance.now()\<close> that \<open>triggerGesture\<close> takes.
\<close>

definition analyze_pattern :: "string \<Rightarrow> real \<Rightarrow> 'w detector \<Rightarrow> 'w detector outcome" where
  "analyze_pattern name now s =
     (case map_of (patterns s) name of
        None \<Rightarrow> Done s
      | Some p \<Rightarrow>
          if \<not> active p then Done s
          else
            (case evaluate p s of
               Inl e \<Rightarrow> Raised e s
             | Inr result \<Rightarrow>
                 if matches result then
                   (case checkConditions (conditions p) (world s) of
                      Inl e \<Rightarrow> Raised e s
                    | Inr ok \<Rightarrow> if ok then triggerGesture name result now s else Done s)
                 else Done s))"

text \<open>
  \<open>patterns.forEach\<close> visits the registrations in insertion order; an exception that
  leaves the callback leaves the loop. \<open>clock name\<close> is the time read while \<open>name\<close> is
  triggered.
\<close>

fun for_each_pattern :: "string list \<Rightarrow> (string \<Rightarrow> real) \<Rightarrow> 'w detector \<Rightarrow> 'w detector outcome" where
  "for_each_pattern [] clock s = Done s"
| "for_each_pattern (name # names) clock s =
     (case analyze_pattern name (clock name) s of
        Done s' \<Rightarrow> for_each_pattern names clock s'
      | Raised e s' \<Rightarrow> Raised e s')"

definition analyzeActiveGestures :: "(string \<Rightarrow> real) \<Rightarrow> 'w detector \<Rightarrow> 'w detector outcome" where
  "analyzeActiveGestures clock s = for_each_pattern (map fst (patterns s)) clock s"

text \<open>The state an outcome carries, and whether the operation returned.\<close>

fun state_of :: "'a outcome \<Rightarrow> 'a" where
  "state_of (Done s) = s"
| "state_of (Raised e s) = s"

fun completed :: "'a outcome \<Rightarrow> bool" where
  "completed (Done s) = True"
| "completed (Raised e s) = False"

text \<open>Several calls of \<open>triggerGesture\<close> for one registration, one after the other.\<close>

fun trigger_all ::
    "string \<Rightarrow> (detection_result \<times> real) list \<Rightarrow> 'w detector \<Rightarrow> 'w detector outcome" where
  "trigger_all name [] s = Done s"
| "trigger_all name ((result, now) # ticks) s =
     (case triggerGesture name result now s of
        Done s' \<Rightarrow> trigger_all name ticks s'
      | Raised e s' \<Rightarrow> Raised e s')"


section \<open>Sample registrations\<close>

text \<open>The registration that \<open>registerPattern\<close> stores for a pattern type.\<close>

definition fresh_registration :: "'w pattern_type \<Rightarrow> 'w pattern" where
  "fresh_registration t =
     \<lparr>ptype = t, handlers = [], conditions = [], cooldown = 100, lastTriggered = 0,
      active = False, stats = \<lparr>triggered = 0, avgConfidence = 0, totalConfidence = 0\<rparr>\<rparr>"

text \<open>
  A custom detection function that always reports a match with confidence 1, one that
  always throws, a handler that counts its calls in the world, and one that throws. The
  world is a counter.
\<close>

definition always_matches :: "nat detection_fn" where
  "always_matches = (\<lambda>mouse touches w. Inr (CustomResult True (Some 1)))"

definition always_throws :: "nat detection_fn" where
  "always_throws = (\<lambda>mouse touches w. Inl (Thrown ''detector failed''))"

definition counting_handler :: "nat handler" where
  "counting_handler = (\<lambda>ev w. Returns (Suc w))"

definition throwing_handler :: "nat handler" where
  "throwing_handler = (\<lambda>ev w. Throws (Thrown ''handler failed'') w)"

text \<open>
  A detector with one started registration \<open>g\<close>, which always matches, has the default
  cooldown of 100 ms and one handler.
\<close>

definition one_gesture :: "nat detector" where
  "one_gesture =
     startDetection None
       (addGestureHandler ''g'' counting_handler (custom ''g'' always_matches (new_detector 0)))"


text \<open>The registration \<open>g\<close> of \<open>one_gesture\<close>.\<close>

definition g_registration :: "nat pattern" where
  "g_registration =
     (fresh_registration (Custom always_matches))\<lparr>handlers := [counting_handler], active := True\<rparr>"


section \<open>Handlers that throw, and their silent counterparts\<close>

text \<open>
  The outcomes of the handlers of one firing, in the order of the calls: each handler
  starts in the world the one before it left.
\<close>

fun world_after :: "'w handler_outcome \<Rightarrow> 'w" where
  "world_after (Returns w) = w"
| "world_after (Throws e w) = w"

fun handler_outcomes :: "gesture_event \<Rightarrow> 'w handler list \<Rightarrow> 'w \<Rightarrow> 'w handler_outcome list" where
  "handler_outcomes ev [] w = []"
| "handler_outcomes ev (h # hs) w = h ev w # handler_outcomes ev hs (world_after (h ev w))"

fun thrown :: "'w handler_outcome list \<Rightarrow> exn list" where
  "thrown [] = []"
| "thrown (Returns w # rs) = thrown rs"
| "thrown (Throws e w # rs) = e # thrown rs"

text \<open>
  \<open>quiet h\<close> acts on the world as \<open>h\<close> does and returns where \<open>h\<close> throws. Making every
  handler of a detector quiet, and forgetting the console, gives the means to say that a
  throwing handler changes nothing but the console.
\<close>

definition quiet :: "'w handler \<Rightarrow> 'w handler" where
  "quiet h = (\<lambda>ev w. Returns (world_after (h ev w)))"

definition quiet_pattern :: "'w pattern \<Rightarrow> 'w pattern" where
  "quiet_pattern p = p\<lparr>handlers := map quiet (handlers p)\<rparr>"

definition quiet_detector :: "'w detector \<Rightarrow> 'w detector" where
  "quiet_detector s = s\<lparr>patterns := map (\<lambda>(n, p). (n, quiet_pattern p)) (patterns s)\<rparr>"

definition silence :: "'w detector \<Rightarrow> 'w detector" where
  "silence s = s\<lparr>console := []\<rparr>"

fun map_outcome :: "('a \<Rightarrow> 'b) \<Rightarrow> 'a outcome \<Rightarrow> 'b outcome" where
  "map_outcome f (Done s) = Done (f s)"
| "map_outcome f (Raised e s) = Raised e (f s)"

text \<open>The two detectors agree on everything but the console, up to quietness.\<close>

definition quiet_twin :: "'w detector \<Rightarrow> 'w detector \<Rightarrow> bool" where
  "quiet_twin s q \<longleftrightarrow>
     patterns q = map (\<lambda>(n, p). (n, quiet_pattern p)) (patterns s)
     \<and> touchHistory q = touchHistory s \<and> mouseHistory q = mouseHistory s
     \<and> world q = world s \<and> dispatched q = dispatched s \<and> invoked q = invoked s"

fun quiet_twins :: "'w detector outcome \<Rightarrow> 'w detector outcome \<Rightarrow> bool" where
  "quiet_twins (Done s) (Done q) = quiet_twin s q"
| "quiet_twins (Raised e s) (Raised e' q) = (e = e' \<and> quiet_twin s q)"
| "quiet_twins _ _ = False"

text \<open>
  Two started registrations that always match: \<open>A\<close> with a handler that throws followed by
  one that counts, and \<open>B\<close> with one handler that counts.
\<close>

definition two_gestures :: "nat detector" where
  "two_gestures =
     startDetection None
       (addGestureHandler ''B'' counting_handler
          (custom ''B'' always_matches
             (addGestureHandler ''A'' counting_handler
                (addGestureHandler ''A'' throwing_handler
                   (custom ''A'' always_matches (new_detector 0))))))"

definition a_registration :: "nat pattern" where
  "a_registration =
     (fresh_registration (Custom always_matches))
       \<lparr>handlers := [throwing_handler, counting_handler], active := True\<rparr>"

text \<open>
  Three started registrations, in this order: \<open>A\<close> always matches and has a counting
  handler, the custom detector of \<open>F\<close> always throws, and \<open>B\<close> is like \<open>A\<close>.
\<close>

definition three_gestures :: "nat detector" where
  "three_gestures =
     startDetection None
       (addGestureHandler ''B'' counting_handler
          (custom ''B'' always_matches
             (custom ''F'' always_throws
                (addGestureHandler ''A'' counting_handler
                   (custom ''A'' always_matches (new_detector 0))))))"

definition f_registration :: "nat pattern" where
  "f_registration = (fresh_registration (Custom always_throws))\<lparr>active := True\<rparr>"

text \<open>A started sequence of three steps with a handler.\<close>

definition abc_steps :: "sequence_step list" where
  "abc_steps =
     [\<lparr>step_type = ''A'', step_timeout = Some 2000\<rparr>,
      \<lparr>step_type = ''B'', step_timeout = Some 1000\<rparr>,
      \<lparr>step_type = ''C'', step_timeout = Some 500\<rparr>]"

definition abc_sequence :: "nat detector" where
  "abc_sequence =
     startDetection None
       (addGestureHandler ''abc'' counting_handler
          (registerSequencePattern ''abc'' abc_steps (new_detector 0)))"

text \<open>
  The line pattern in the words of the specification: the segment from the first to the
  last point is at least \<open>minLength\<close> long and every point between them lies within
  \<open>maxDeviation\<close> of the line through them.
\<close>

definition perpendicular_distance :: "sample \<Rightarrow> sample \<Rightarrow> sample \<Rightarrow> real" where
  "perpendicular_distance p a b =
     \<bar>(x b - x a) * (y a - y p) - (x a - x p) * (y b - y a)\<bar> / distance a b"

definition is_line :: "sample list \<Rightarrow> line_options \<Rightarrow> bool" where
  "is_line points opts \<longleftrightarrow>
     2 \<le> length points
     \<and> minLength opts \<le> distance (hd points) (last points)
     \<and> list_all (\<lambda>p. perpendicular_distance p (hd points) (last points) \<le> maxDeviation opts)
          (butlast (tl points))"

text \<open>
  A straight horizontal stroke of length 100 in the history of a detector with a started
  registration made by \<open>mouseLine(100, 20)\<close>.
\<close>

definition line_points :: "sample list" where
  "line_points =
     [\<lparr>x = 0, y = 0, timestamp = 0, pressure = 1\<rparr>,
      \<lparr>x = 50, y = 0, timestamp = 10, pressure = 1\<rparr>,
      \<lparr>x = 100, y = 0, timestamp = 20, pressure = 1\<rparr>]"

definition line_gesture :: "nat detector" where
  "line_gesture =
     (startDetection None
        (addGestureHandler ''line'' counting_handler
           (mouseLine ''line'' 100 20 (new_detector 0))))\<lparr>mouseHistory := line_points\<rparr>"


section \<open>The event registry\<close>

text \<open>
  Functions are compared by identity. A function is either one of the application's,
  identified by a number, or the closure made by a call of \<open>wrapHandler\<close>; every call
  makes a new closure, so the closures are numbered by the calls.
\<close>

datatype fn = UserFn nat | Wrapper nat

record handler_options =
  once :: bool
  throttle :: real
  debounce :: real

text \<open>
  The registry: \<open>listeners\<close> is the \<open>Map\<close> from event names to \<open>Set\<close>s of functions, both
  in insertion order; \<open>wrapped\<close> holds, for each closure made so far, the handler and the
  options it closes over.
\<close>

record event_registry =
  listeners :: "(string \<times> fn list) list"
  activeListeners :: int
  wrapped :: "(fn \<times> handler_options) list"

definition new_registry :: event_registry where
  "new_registry = \<lparr>listeners = [], activeListeners = 0, wrapped = []\<rparr>"

definition wrapHandler :: "fn \<Rightarrow> handler_options \<Rightarrow> event_registry \<Rightarrow> fn \<times> event_registry" where
  "wrapHandler handler options r =
     (Wrapper (length (wrapped r)), r\<lparr>wrapped := wrapped r @ [(handler, options)]\<rparr>)"

text \<open>\<open>Set.add\<close> and \<open>Set.delete\<close>.\<close>

definition set_add :: "fn \<Rightarrow> fn list \<Rightarrow> fn list" where
  "set_add f fs = (if f \<in> set fs then fs else fs @ [f])"

definition set_delete :: "fn \<Rightarrow> fn list \<Rightarrow> fn list" where
  "set_delete f fs = removeAll f fs"

text \<open>
  The function \<open>on\<close> returns is the closure \<open>() => this.off(eventName, wrappedHandler)\<close>,
  held as the two values it closes over.
\<close>

datatype unsubscribe = Unsubscribe string fn

definition on :: "string \<Rightarrow> fn \<Rightarrow> handler_options \<Rightarrow> event_registry \<Rightarrow> unsubscribe \<times> event_registry" where
  "on eventName handler options r =
     (let r1 = (case map_of (listeners r) eventName of
                  None \<Rightarrow> r\<lparr>listeners := AList.update eventName [] (listeners r)\<rparr>
                | Some fs \<Rightarrow> r);
          (wrappedHandler, r2) = wrapHandler handler options r1;
          fs = (case map_of (listeners r2) eventName of None \<Rightarrow> [] | Some fs \<Rightarrow> fs);
          r3 = r2\<lparr>listeners := AList.update eventName (set_add wrappedHandler fs) (listeners r2),
                  activeListeners := activeListeners r2 + 1\<rparr>
      in (Unsubscribe eventName wrappedHandler, r3))"

definition off :: "string \<Rightarrow> fn \<Rightarrow> event_registry \<Rightarrow> bool \<times> event_registry" where
  "off eventName handler r =
     (case map_of (listeners r) eventName of
        None \<Rightarrow> (False, r)
      | Some fs \<Rightarrow>
          let removed = (handler \<in> set fs);
              fs' = set_delete handler fs;
              r1 = r\<lparr>listeners := AList.update eventName fs' (listeners r)\<rparr>;
              r2 = (if removed then r1\<lparr>activeListeners := activeListeners r1 - 1\<rparr> else r1);
              r3 = (if length fs' = 0
                    then r2\<lparr>listeners := AList.delete eventName (listeners r2)\<rparr>
                    else r2)
          in (removed, r3))"

fun call_unsubscribe :: "unsubscribe \<Rightarrow> event_registry \<Rightarrow> bool \<times> event_registry" where
  "call_unsubscribe (Unsubscribe eventName wrappedHandler) r = off eventName wrappedHandler r"

definition destroy :: "event_registry \<Rightarrow> event_registry" where
  "destroy r = r\<lparr>listeners := [], activeListeners := 0\<rparr>"

text \<open>
  The calls a registry can receive, and the registry after a sequence of them on a new one.
  \<open>Off\<close> with a \<open>Wrapper\<close> is what a call of an unsubscribe function does.
\<close>

datatype registry_call = On string fn handler_options | Off string fn | Destroy

fun apply_call :: "registry_call \<Rightarrow> event_registry \<Rightarrow> event_registry" where
  "apply_call (On eventName handler options) r = snd (on eventName handler options r)"
| "apply_call (Off eventName handler) r = snd (off eventName handler r)"
| "apply_call Destroy r = destroy r"

definition after_calls :: "registry_call list \<Rightarrow> event_registry" where
  "after_calls calls = foldl (\<lambda>r c. apply_call c r) new_registry calls"

text \<open>The subscriptions of an event, and the function an unsubscribe closure removes.\<close>

definition subscribers :: "event_registry \<Rightarrow> string \<Rightarrow> fn list" where
  "subscribers r eventName = (case map_of (listeners r) eventName of None \<Rightarrow> [] | Some fs \<Rightarrow> fs)"

fun wrapper_of :: "unsubscribe \<Rightarrow> fn" where
  "wrapper_of (Unsubscribe eventName wrappedHandler) = wrappedHandler"

fun is_wrapper :: "fn \<Rightarrow> bool" where
  "is_wrapper (Wrapper k) = True"
| "is_wrapper (UserFn h) = False"

text \<open>
  What holds of every registry: each set is non-empty, without repetition, and holds only
  closures that \<open>wrapHandler\<close> has made.
\<close>

definition valid_set :: "nat \<Rightarrow> fn list \<Rightarrow> bool" where
  "valid_set n fs \<longleftrightarrow>
     fs \<noteq> [] \<and> distinct fs
     \<and> list_all (\<lambda>f. case f of Wrapper k \<Rightarrow> k < n | UserFn h \<Rightarrow> False) fs"

definition well_formed :: "event_registry \<Rightarrow> bool" where
  "well_formed r \<longleftrightarrow>
     list_all (\<lambda>(e, fs). valid_set (length (wrapped r)) fs) (listeners r)"

text \<open>The options of a plain subscription.\<close>

definition plain :: handler_options where
  "plain = \<lparr>once = False, throttle = 0, debounce = 0\<rparr>"


chapter \<open>Properties\<close>

section \<open>The pointer history is bounded\<close>









section \<open>The circle detector\<close>



















section \<open>The swipe detector\<close>


















section \<open>Registration\<close>






section \<open>Triggering and the cooldown\<close>

lemma call_handlers_invoked:
  "invoked (call_handlers name ev i hs s) = invoked s @ map (Pair name) [i..<i + length hs]"
proof (induction hs arbitrary: i s)
  case Nil
  then show ?case by simp
next
  case (Cons h hs)
  have "[i..<i + length (h # hs)] = i # [Suc i..<Suc i + length hs]"
    by (subst upt_rec) simp
  then show ?case
    by (simp add: Cons.IH split: handler_outcome.split)
qed

lemma call_handlers_patterns [simp]:
  "patterns (call_handlers name ev i hs s) = patterns s"
  by (induction hs arbitrary: i s) (simp_all split: handler_outcome.split)

lemma call_handlers_dispatched [simp]:
  "dispatched (call_handlers name ev i hs s) = dispatched s"
  by (induction hs arbitrary: i s) (simp_all split: handler_outcome.split)

lemma call_handlers_histories [simp]:
  "mouseHistory (call_handlers name ev i hs s) = mouseHistory s"
  "touchHistory (call_handlers name ev i hs s) = touchHistory s"
  by (induction hs arbitrary: i s) (simp_all split: handler_outcome.split)

lemma triggerGesture_suppressed:
  assumes "map_of (patterns s) name = Some p" "now - lastTriggered p < cooldown p"
  shows "triggerGesture name result now s = Done s"
  using assms by (simp add: triggerGesture_def)

lemma triggerGesture_fires:
  assumes "map_of (patterns s) name = Some p" "cooldown p \<le> now - lastTriggered p"
  shows "\<exists>s'. triggerGesture name result now s = Done s'
           \<and> invoked s' = invoked s @ map (Pair name) [0..<length (handlers p)]
           \<and> map_of (patterns s') name =
               Some (p\<lparr>lastTriggered := now,
                      stats := \<lparr>triggered = triggered (stats p) + 1,
                                avgConfidence =
                                  (totalConfidence (stats p) + confidence_or_0 result)
                                    / real (triggered (stats p) + 1),
                                totalConfidence =
                                  totalConfidence (stats p) + confidence_or_0 result\<rparr>\<rparr>)"
  using assms
  by (simp add: triggerGesture_def Let_def call_handlers_invoked update_conv')

lemma trigger_all_suppressed:
  assumes "map_of (patterns s) name = Some p"
    and "\<forall>(r, t) \<in> set ticks. t - lastTriggered p < cooldown p"
  shows "trigger_all name ticks s = Done s"
  using assms(2)
proof (induction ticks)
  case Nil
  then show ?case by simp
next
  case (Cons a ticks)
  obtain r t where a: "a = (r, t)" by (cases a)
  have "triggerGesture name r t s = Done s"
    using Cons.prems assms(1) by (intro triggerGesture_suppressed) (auto simp: a)
  then show ?case using Cons by (simp add: a)
qed

text \<open>
  Claim C4, as the code has it. When a registration fires at a reading \<open>t1\<close> of the clock
  (it is triggered there and \<open>t1 - lastTriggered\<close> has reached the cooldown), its handlers
  are all called, \<open>lastTriggered\<close> becomes \<open>t1\<close> and the trigger count grows by one. Every
  later trigger at a reading \<open>t2\<close> with \<open>t2 - t1\<close> below the cooldown is suppressed and
  leaves the whole state as it is: \<open>lastTriggered\<close>, the statistics, the handlers' trace,
  the console and the dispatched events. So after any number of such triggers the
  registration fires again at the first reading \<open>t3\<close> with \<open>t3 - t1\<close> at or above the
  cooldown.
\<close>

theorem cooldown_gates_refiring:
  assumes "map_of (patterns s) name = Some p"
    and "cooldown p \<le> t1 - lastTriggered p"
  shows "let s1 = state_of (triggerGesture name r1 t1 s) in
           triggerGesture name r1 t1 s = Done s1
         \<and> invoked s1 = invoked s @ map (Pair name) [0..<length (handlers p)]
         \<and> map_option lastTriggered (map_of (patterns s1) name) = Some t1
         \<and> map_option (triggered \<circ> stats) (map_of (patterns s1) name)
             = Some (triggered (stats p) + 1)
         \<and> (\<forall>r2 t2. t2 - t1 < cooldown p \<longrightarrow> triggerGesture name r2 t2 s1 = Done s1)
         \<and> (\<forall>ticks. (\<forall>(r, t) \<in> set ticks. t - t1 < cooldown p) \<longrightarrow>
               trigger_all name ticks s1 = Done s1)
         \<and> (\<forall>r3 t3. cooldown p \<le> t3 - t1 \<longrightarrow>
               (let s3 = state_of (triggerGesture name r3 t3 s1) in
                  triggerGesture name r3 t3 s1 = Done s3
                \<and> invoked s3 = invoked s1 @ map (Pair name) [0..<length (handlers p)]
                \<and> map_option lastTriggered (map_of (patterns s3) name) = Some t3
                \<and> map_option (triggered \<circ> stats) (map_of (patterns s3) name)
                    = Some (triggered (stats p) + 2)))"
proof -
  define p1 where "p1 = p\<lparr>lastTriggered := t1,
                      stats := \<lparr>triggered = triggered (stats p) + 1,
                                avgConfidence =
                                  (totalConfidence (stats p) + confidence_or_0 r1)
                                    / real (triggered (stats p) + 1),
                                totalConfidence =
                                  totalConfidence (stats p) + confidence_or_0 r1\<rparr>\<rparr>"
  obtain s1 where s1: "triggerGesture name r1 t1 s = Done s1"
    and inv1: "invoked s1 = invoked s @ map (Pair name) [0..<length (handlers p)]"
    and reg1: "map_of (patterns s1) name = Some p1"
    using triggerGesture_fires [OF assms, of r1] unfolding p1_def by blast
  have f1: "lastTriggered p1 = t1" "cooldown p1 = cooldown p" "handlers p1 = handlers p"
    "triggered (stats p1) = triggered (stats p) + 1"
    by (simp_all add: p1_def)
  have suppressed: "triggerGesture name r2 t2 s1 = Done s1" if "t2 - t1 < cooldown p" for r2 t2
  proof -
    have "t2 - lastTriggered p1 < cooldown p1" using that by (simp only: f1)
    with reg1 show ?thesis by (rule triggerGesture_suppressed)
  qed
  have suppressed_all: "trigger_all name ticks s1 = Done s1"
    if "\<forall>(r, t) \<in> set ticks. t - t1 < cooldown p" for ticks
  proof -
    have "\<forall>(r, t) \<in> set ticks. t - lastTriggered p1 < cooldown p1"
      using that by (simp only: f1)
    with reg1 show ?thesis by (rule trigger_all_suppressed)
  qed
  have again: "let s3 = state_of (triggerGesture name r3 t3 s1) in
                  triggerGesture name r3 t3 s1 = Done s3
                \<and> invoked s3 = invoked s1 @ map (Pair name) [0..<length (handlers p)]
                \<and> map_option lastTriggered (map_of (patterns s3) name) = Some t3
                \<and> map_option (triggered \<circ> stats) (map_of (patterns s3) name)
                    = Some (triggered (stats p) + 2)"
    if "cooldown p \<le> t3 - t1" for r3 t3
  proof -
    have "cooldown p1 \<le> t3 - lastTriggered p1" using that by (simp only: f1)
    from triggerGesture_fires [OF reg1 this, of r3]
    obtain s3 where "triggerGesture name r3 t3 s1 = Done s3"
      and "invoked s3 = invoked s1 @ map (Pair name) [0..<length (handlers p1)]"
      and "map_of (patterns s3) name =
             Some (p1\<lparr>lastTriggered := t3,
                      stats := \<lparr>triggered = triggered (stats p1) + 1,
                                avgConfidence =
                                  (totalConfidence (stats p1) + confidence_or_0 r3)
                                    / real (triggered (stats p1) + 1),
                                totalConfidence =
                                  totalConfidence (stats p1) + confidence_or_0 r3\<rparr>\<rparr>)"
      by blast
    then show ?thesis by (simp add: f1)
  qed
  show ?thesis
    unfolding s1 Let_def state_of.simps
    using inv1 reg1 suppressed suppressed_all again
    by (simp add: f1 s1 Let_def)
qed

lemma one_gesture_eq:
  "one_gesture = (new_detector 0)\<lparr>patterns := [(''g'', g_registration)]\<rparr>"
  by (simp add: one_gesture_def startDetection_def activate_all_def addGestureHandler_def
        custom_def registerPattern_def new_detector_def g_registration_def
        fresh_registration_def)

theorem cooldown_gates_refiring_witness:
  "map_of (patterns one_gesture) ''g'' = Some g_registration
   \<and> cooldown g_registration \<le> 150 - lastTriggered g_registration
   \<and> invoked (state_of (triggerGesture ''g'' (CustomResult True (Some 1)) 150 one_gesture))
       = [(''g'', 0)]
   \<and> (200 :: real) - 150 < cooldown g_registration
   \<and> triggerGesture ''g'' (CustomResult True (Some 1)) 200
         (state_of (triggerGesture ''g'' (CustomResult True (Some 1)) 150 one_gesture))
       = Done (state_of (triggerGesture ''g'' (CustomResult True (Some 1)) 150 one_gesture))
   \<and> cooldown g_registration \<le> 260 - 150
   \<and> invoked (state_of (triggerGesture ''g'' (CustomResult True (Some 1)) 260
         (state_of (triggerGesture ''g'' (CustomResult True (Some 1)) 150 one_gesture))))
       = [(''g'', 0), (''g'', 0)]"
  using cooldown_gates_refiring
          [of one_gesture "''g''" g_registration 150 "CustomResult True (Some 1)"]
  by (simp add: one_gesture_eq g_registration_def fresh_registration_def new_detector_def
        triggerGesture_def Let_def counting_handler_def)

text \<open>
  The claim as it is worded lets any two matching ticks be \<open>t1\<close> and \<open>t2\<close>. A
  registration starts with \<open>lastTriggered = 0\<close> and the default cooldown of 100 ms: when
  its pattern matches at the readings 50 and 120, which are 70 ms apart, the first match
  is the suppressed one and the second one fires.
\<close>

theorem cooldown_first_match_counterexample:
  "map_option (\<lambda>p. evaluate p one_gesture) (map_of (patterns one_gesture) ''g'')
     = Some (Inr (CustomResult True (Some 1)))
   \<and> (120 :: real) - 50 < 100
   \<and> analyzeActiveGestures (\<lambda>n. 50) one_gesture = Done one_gesture
   \<and> invoked one_gesture = []
   \<and> invoked (state_of (analyzeActiveGestures (\<lambda>n. 120) one_gesture)) = [(''g'', 0)]"
  by (simp add: one_gesture_eq g_registration_def fresh_registration_def new_detector_def
        analyzeActiveGestures_def analyze_pattern_def evaluate_def always_matches_def
        triggerGesture_def Let_def counting_handler_def)


section \<open>Handler isolation\<close>

lemma call_handlers_console:
  "console (call_handlers name ev i hs s) =
     console s @ map (Pair (''Gesture handler error for '' @ name @ '':''))
                  (thrown (handler_outcomes ev hs (world s)))"
  by (induction hs arbitrary: i s) (auto split: handler_outcome.split)

lemma map_of_quiet:
  "map_of (map (\<lambda>(n, p). (n, quiet_pattern p)) al) name = map_option quiet_pattern (map_of al name)"
  by (induction al) auto

lemma update_quiet:
  "AList.update name (quiet_pattern p) (map (\<lambda>(n, p). (n, quiet_pattern p)) al)
     = map (\<lambda>(n, p). (n, quiet_pattern p)) (AList.update name p al)"
  by (induction al) auto

lemma quiet_twin_call_handlers:
  "quiet_twin s q \<Longrightarrow>
   quiet_twin (call_handlers name ev i hs s) (call_handlers name ev i (map quiet hs) q)"
proof (induction hs arbitrary: i s q)
  case Nil
  then show ?case by simp
next
  case (Cons h hs)
  show ?case
  proof (cases "h ev (world s)")
    case (Returns w)
    have "quiet_twin (s\<lparr>world := w, invoked := invoked s @ [(name, i)]\<rparr>)
                     (q\<lparr>world := w, invoked := invoked q @ [(name, i)]\<rparr>)"
      using Cons.prems by (simp add: quiet_twin_def)
    from Cons.IH [OF this] show ?thesis
      using Cons.prems Returns by (simp add: quiet_def quiet_twin_def)
  next
    case (Throws e w)
    have "quiet_twin
            (s\<lparr>world := w, invoked := invoked s @ [(name, i)],
               console := console s @ [(''Gesture handler error for '' @ name @ '':'', e)]\<rparr>)
            (q\<lparr>world := w, invoked := invoked q @ [(name, i)]\<rparr>)"
      using Cons.prems by (simp add: quiet_twin_def)
    from Cons.IH [OF this] show ?thesis
      using Cons.prems Throws by (simp add: quiet_def quiet_twin_def)
  qed
qed

lemma quiet_then_trigger:
  "p\<lparr>handlers := H, lastTriggered := N, stats := S\<rparr>
     = p\<lparr>lastTriggered := N, stats := S, handlers := H\<rparr>"
  by simp

lemma quiet_twin_dispatch:
  "quiet_twin s q \<Longrightarrow>
   quiet_twin (s\<lparr>dispatched := dispatched s @ [d]\<rparr>) (q\<lparr>dispatched := dispatched q @ [d]\<rparr>)"
  by (simp add: quiet_twin_def)

lemma quiet_twin_triggerGesture:
  assumes "quiet_twin s q"
  shows "quiet_twins (triggerGesture name result now s) (triggerGesture name result now q)"
proof (cases "map_of (patterns s) name")
  case None
  then have "map_of (patterns q) name = None"
    using assms by (simp add: quiet_twin_def map_of_quiet)
  with None assms show ?thesis by (simp add: triggerGesture_def)
next
  case (Some p)
  then have q: "map_of (patterns q) name = Some (quiet_pattern p)"
    using assms by (simp add: quiet_twin_def map_of_quiet)
  show ?thesis
  proof (cases "now - lastTriggered p < cooldown p")
    case True
    then show ?thesis using Some q assms by (simp add: triggerGesture_def quiet_pattern_def)
  next
    case False
    define st where "st = \<lparr>triggered = triggered (stats p) + 1,
        avgConfidence = (totalConfidence (stats p) + confidence_or_0 result)
                          / real (triggered (stats p) + 1),
        totalConfidence = totalConfidence (stats p) + confidence_or_0 result\<rparr>"
    define p' where "p' = p\<lparr>lastTriggered := now, stats := st\<rparr>"
    define ev where "ev = \<lparr>ev_name = name, ev_type = type_name (ptype p), ev_result = result,
                      ev_timestamp = now, ev_stats = st\<rparr>"
    have qp: "quiet_pattern p\<lparr>lastTriggered := now, stats := st\<rparr> = quiet_pattern p'"
      by (simp add: quiet_pattern_def p'_def)
    have tw: "quiet_twin (s\<lparr>patterns := AList.update name p' (patterns s)\<rparr>)
                (q\<lparr>patterns := AList.update name (quiet_pattern p') (patterns q)\<rparr>)"
      using assms by (simp add: quiet_twin_def update_quiet)
    have hs: "handlers (quiet_pattern p') = map quiet (handlers p')"
      by (simp add: quiet_pattern_def)
    note ch = quiet_twin_call_handlers [OF tw, of name ev 0 "handlers p'"]
    have s: "triggerGesture name result now s =
        Done ((call_handlers name ev 0 (handlers p')
                 (s\<lparr>patterns := AList.update name p' (patterns s)\<rparr>))
              \<lparr>dispatched := dispatched (call_handlers name ev 0 (handlers p')
                 (s\<lparr>patterns := AList.update name p' (patterns s)\<rparr>)) @
                 [\<lparr>detail_name = name, detail_result = result, detail_timestamp = now,
                   detail_type = type_name (ptype p)\<rparr>]\<rparr>)"
      using Some False by (simp add: triggerGesture_def Let_def st_def p'_def ev_def)
    have q': "triggerGesture name result now q =
        Done ((call_handlers name ev 0 (map quiet (handlers p'))
                 (q\<lparr>patterns := AList.update name (quiet_pattern p') (patterns q)\<rparr>))
              \<lparr>dispatched := dispatched (call_handlers name ev 0 (map quiet (handlers p'))
                 (q\<lparr>patterns := AList.update name (quiet_pattern p') (patterns q)\<rparr>)) @
                 [\<lparr>detail_name = name, detail_result = result, detail_timestamp = now,
                   detail_type = type_name (ptype p)\<rparr>]\<rparr>)"
      using q False
      by (simp add: triggerGesture_def Let_def st_def p'_def ev_def quiet_pattern_def
            quiet_then_trigger)
    show ?thesis
      unfolding s q' quiet_twins.simps by (rule quiet_twin_dispatch [OF ch])
  qed
qed

lemma quiet_twin_evaluate:
  "quiet_twin s q \<Longrightarrow> evaluate (quiet_pattern p) q = evaluate p s"
  by (simp add: evaluate_def quiet_twin_def quiet_pattern_def split: pattern_type.split)

lemma quiet_twin_analyze_pattern:
  assumes "quiet_twin s q"
  shows "quiet_twins (analyze_pattern name now s) (analyze_pattern name now q)"
proof (cases "map_of (patterns s) name")
  case None
  then have "map_of (patterns q) name = None"
    using assms by (simp add: quiet_twin_def map_of_quiet)
  with None assms show ?thesis by (simp add: analyze_pattern_def)
next
  case (Some p)
  then have q: "map_of (patterns q) name = Some (quiet_pattern p)"
    using assms by (simp add: quiet_twin_def map_of_quiet)
  have ev: "evaluate (quiet_pattern p) q = evaluate p s"
    using assms by (rule quiet_twin_evaluate)
  have w: "world q = world s" using assms by (simp add: quiet_twin_def)
  have f: "active (quiet_pattern p) = active p" "conditions (quiet_pattern p) = conditions p"
    by (simp_all add: quiet_pattern_def)
  show ?thesis
    using assms quiet_twin_triggerGesture [OF assms]
    by (simp add: analyze_pattern_def Some q ev w f split: sum.split)
qed

lemma quiet_twin_for_each:
  "quiet_twin s q \<Longrightarrow>
   quiet_twins (for_each_pattern names clock s) (for_each_pattern names clock q)"
proof (induction names arbitrary: s q)
  case Nil
  then show ?case by simp
next
  case (Cons name names)
  from quiet_twin_analyze_pattern [OF Cons.prems, of name "clock name"]
  show ?case
    by (cases "analyze_pattern name (clock name) s"; cases "analyze_pattern name (clock name) q")
       (simp_all add: Cons.IH)
qed

lemma quiet_twin_quiet_detector: "quiet_twin s (quiet_detector s)"
  by (simp add: quiet_twin_def quiet_detector_def)

lemma quiet_twin_silence: "quiet_twin s q \<Longrightarrow> silence (quiet_detector s) = silence q"
  by (simp add: quiet_twin_def quiet_detector_def silence_def)

lemma quiet_twins_silence:
  "quiet_twins a b \<Longrightarrow> map_outcome (silence \<circ> quiet_detector) a = map_outcome silence b"
  by (cases a; cases b) (simp_all add: quiet_twin_silence)

lemma triggerGesture_console:
  assumes "map_of (patterns s) name = Some p" "cooldown p \<le> now - lastTriggered p"
  shows "\<exists>ev. ev_name ev = name \<and> ev_result ev = result \<and> ev_timestamp ev = now
           \<and> console (state_of (triggerGesture name result now s)) =
                 console s @ map (Pair (''Gesture handler error for '' @ name @ '':''))
                              (thrown (handler_outcomes ev (handlers p) (world s)))"
proof -
  define st where "st = \<lparr>triggered = triggered (stats p) + 1,
        avgConfidence = (totalConfidence (stats p) + confidence_or_0 result)
                          / real (triggered (stats p) + 1),
        totalConfidence = totalConfidence (stats p) + confidence_or_0 result\<rparr>"
  define ev where "ev = \<lparr>ev_name = name, ev_type = type_name (ptype p), ev_result = result,
                      ev_timestamp = now, ev_stats = st\<rparr>"
  have "console (state_of (triggerGesture name result now s)) =
          console s @ map (Pair (''Gesture handler error for '' @ name @ '':''))
                       (thrown (handler_outcomes ev (handlers p) (world s)))"
    using assms
    by (simp add: triggerGesture_def Let_def call_handlers_console st_def ev_def)
  moreover have "ev_name ev = name \<and> ev_result ev = result \<and> ev_timestamp ev = now"
    by (simp add: ev_def)
  ultimately show ?thesis by blast
qed

text \<open>
  Claim C5. When a registration fires, the pass is not left by an exception of a handler:
  every handler of the registration is called, in order, each starting in the world the one
  before it left, and each one that throws puts one line with its exception on the
  console. For the whole detection pass, handlers that throw and handlers that return
  after the same effect on the world cannot be told apart except on the console: the same
  registrations are evaluated and fire, the same handlers are called, and the pass ends the
  same way.
\<close>

theorem handler_exceptions_are_isolated:
  "(map_of (patterns s) name = Some p \<and> cooldown p \<le> now - lastTriggered p \<longrightarrow>
      completed (triggerGesture name result now s)
      \<and> invoked (state_of (triggerGesture name result now s))
          = invoked s @ map (Pair name) [0..<length (handlers p)]
      \<and> (\<exists>ev. ev_name ev = name \<and> ev_result ev = result \<and> ev_timestamp ev = now
            \<and> console (state_of (triggerGesture name result now s)) =
                  console s @ map (Pair (''Gesture handler error for '' @ name @ '':''))
                               (thrown (handler_outcomes ev (handlers p) (world s)))))
   \<and> map_outcome (silence \<circ> quiet_detector) (analyzeActiveGestures clock s)
       = map_outcome silence (analyzeActiveGestures clock (quiet_detector s))"
proof (intro conjI impI)
  assume a: "map_of (patterns s) name = Some p \<and> cooldown p \<le> now - lastTriggered p"
  then obtain s' where s': "triggerGesture name result now s = Done s'"
    and inv: "invoked s' = invoked s @ map (Pair name) [0..<length (handlers p)]"
    using triggerGesture_fires [of s name p now result] by blast
  show "completed (triggerGesture name result now s)" by (simp add: s')
  show "invoked (state_of (triggerGesture name result now s))
          = invoked s @ map (Pair name) [0..<length (handlers p)]"
    by (simp add: s' inv)
  show "\<exists>ev. ev_name ev = name \<and> ev_result ev = result \<and> ev_timestamp ev = now
            \<and> console (state_of (triggerGesture name result now s)) =
                  console s @ map (Pair (''Gesture handler error for '' @ name @ '':''))
                               (thrown (handler_outcomes ev (handlers p) (world s)))"
    using a triggerGesture_console [of s name p now result] by blast
next
  have "quiet_twins (analyzeActiveGestures clock s) (analyzeActiveGestures clock (quiet_detector s))"
    unfolding analyzeActiveGestures_def
    using quiet_twin_for_each [OF quiet_twin_quiet_detector, where names = "map fst (patterns s)"
            and clock = clock and s = s]
    by (simp add: quiet_detector_def comp_def case_prod_unfold)
  then show "map_outcome (silence \<circ> quiet_detector) (analyzeActiveGestures clock s)
       = map_outcome silence (analyzeActiveGestures clock (quiet_detector s))"
    by (rule quiet_twins_silence)
qed

lemma two_gestures_eq:
  "two_gestures =
     (new_detector 0)
       \<lparr>patterns :=
          [(''A'', a_registration),
           (''B'', (fresh_registration (Custom always_matches))
                     \<lparr>handlers := [counting_handler], active := True\<rparr>)]\<rparr>"
  by (simp add: two_gestures_def startDetection_def activate_all_def addGestureHandler_def
        custom_def registerPattern_def new_detector_def a_registration_def
        fresh_registration_def)

theorem handler_exceptions_are_isolated_witness:
  "map_of (patterns two_gestures) ''A'' = Some a_registration
   \<and> cooldown a_registration \<le> 150 - lastTriggered a_registration
   \<and> throwing_handler \<lparr>ev_name = ''A'', ev_type = ''custom'',
          ev_result = CustomResult True (Some 1), ev_timestamp = 150,
          ev_stats = \<lparr>triggered = 1, avgConfidence = 1, totalConfidence = 1\<rparr>\<rparr> 0
       = Throws (Thrown ''handler failed'') 0
   \<and> completed (analyzeActiveGestures (\<lambda>n. 150) two_gestures)
   \<and> invoked (state_of (analyzeActiveGestures (\<lambda>n. 150) two_gestures))
       = [(''A'', 0), (''A'', 1), (''B'', 0)]
   \<and> world (state_of (analyzeActiveGestures (\<lambda>n. 150) two_gestures)) = 2
   \<and> console (state_of (analyzeActiveGestures (\<lambda>n. 150) two_gestures))
       = [(''Gesture handler error for A:'', Thrown ''handler failed'')]"
  using handler_exceptions_are_isolated
          [of two_gestures "''A''" a_registration 150 "CustomResult True (Some 1)" "\<lambda>n. 150"]
  by (simp add: two_gestures_eq a_registration_def fresh_registration_def new_detector_def
        analyzeActiveGestures_def analyze_pattern_def evaluate_def always_matches_def
        triggerGesture_def Let_def counting_handler_def throwing_handler_def)


section \<open>Detectors that throw\<close>

lemma for_each_pattern_append:
  "for_each_pattern (xs @ ys) clock s =
     (case for_each_pattern xs clock s of
        Done s' \<Rightarrow> for_each_pattern ys clock s'
      | Raised e s' \<Rightarrow> Raised e s')"
  by (induction xs arbitrary: s) (simp_all split: outcome.split)

lemma analyze_pattern_custom_throws:
  assumes "map_of (patterns s) name = Some p" "active p" "ptype p = Custom detectionFn"
    and "detectionFn (mouseHistory s) (touchHistory s) (world s) = Inl e"
  shows "analyze_pattern name now s = Raised e s"
  using assms by (simp add: analyze_pattern_def evaluate_def)

text \<open>
  Claim C6, as the code has it. The detection pass calls a custom detection function
  outside any \<open>try\<close>. When the function of a registration throws, the registrations before
  it in registration order have been evaluated as usual, the exception leaves the pass
  with the state they left, and no registration after it is evaluated in that pass.
\<close>

theorem detector_exception_leaves_pass:
  assumes "map fst (patterns s) = before @ name # after"
    and "for_each_pattern before clock s = Done s'"
    and "map_of (patterns s') name = Some p"
    and "active p"
    and "ptype p = Custom detectionFn"
    and "detectionFn (mouseHistory s') (touchHistory s') (world s') = Inl e"
  shows "analyzeActiveGestures clock s = Raised e s'"
proof -
  have "analyze_pattern name (clock name) s' = Raised e s'"
    using assms(3-6) by (rule analyze_pattern_custom_throws)
  then have "for_each_pattern (name # after) clock s' = Raised e s'" by simp
  then show ?thesis
    unfolding analyzeActiveGestures_def assms(1)
    by (simp add: for_each_pattern_append assms(2))
qed

lemma three_gestures_eq:
  "three_gestures =
     (new_detector 0)
       \<lparr>patterns :=
          [(''A'', g_registration), (''F'', f_registration), (''B'', g_registration)]\<rparr>"
  by (simp add: three_gestures_def startDetection_def activate_all_def addGestureHandler_def
        custom_def registerPattern_def new_detector_def g_registration_def f_registration_def
        fresh_registration_def)

theorem detector_exception_leaves_pass_witness:
  "map fst (patterns three_gestures) = [''A''] @ ''F'' # [''B'']
   \<and> for_each_pattern [''A''] (\<lambda>n. 150) three_gestures
       = Done (state_of (for_each_pattern [''A''] (\<lambda>n. 150) three_gestures))
   \<and> invoked (state_of (for_each_pattern [''A''] (\<lambda>n. 150) three_gestures)) = [(''A'', 0)]
   \<and> map_of (patterns (state_of (for_each_pattern [''A''] (\<lambda>n. 150) three_gestures))) ''F''
       = Some f_registration
   \<and> active f_registration
   \<and> ptype f_registration = Custom always_throws
   \<and> always_throws [] [] (1 :: nat) = Inl (Thrown ''detector failed'')
   \<and> analyzeActiveGestures (\<lambda>n. 150) three_gestures
       = Raised (Thrown ''detector failed'')
           (state_of (for_each_pattern [''A''] (\<lambda>n. 150) three_gestures))"
  using detector_exception_leaves_pass
          [of three_gestures "[''A'']" "''F''" "[''B'']" "\<lambda>n. 150"
              "state_of (for_each_pattern [''A''] (\<lambda>n. 150) three_gestures)"
              f_registration always_throws "Thrown ''detector failed''"]
  by (simp add: three_gestures_eq g_registration_def f_registration_def
        fresh_registration_def new_detector_def analyze_pattern_def evaluate_def
        always_matches_def always_throws_def triggerGesture_def Let_def counting_handler_def)

text \<open>
  In \<open>three_gestures\<close> the pattern of \<open>B\<close> matches, yet the pass is left by the exception
  of \<open>F\<close> and the handler of \<open>B\<close> is never called: only that of \<open>A\<close> was.
\<close>

theorem detector_exception_counterexample:
  "map_option (\<lambda>p. evaluate p three_gestures) (map_of (patterns three_gestures) ''B'')
     = Some (Inr (CustomResult True (Some 1)))
   \<and> \<not> completed (analyzeActiveGestures (\<lambda>n. 150) three_gestures)
   \<and> invoked (state_of (analyzeActiveGestures (\<lambda>n. 150) three_gestures)) = [(''A'', 0)]
   \<and> world (state_of (analyzeActiveGestures (\<lambda>n. 150) three_gestures)) = 1"
  by (simp add: three_gestures_eq g_registration_def f_registration_def
        fresh_registration_def new_detector_def analyzeActiveGestures_def analyze_pattern_def
        evaluate_def always_matches_def always_throws_def triggerGesture_def Let_def
        counting_handler_def)


section \<open>Sequences and lines\<close>

text \<open>
  Claim C8 at the failing input. A pass over a started sequence registration does not
  produce a detection result: the call of the undefined \<open>analyzeSequence\<close> throws, the pass
  is left by the \<open>TypeError\<close>, and the registration is as it was stored, its generator not
  advanced and its \<open>currentStep\<close> at 0. This holds at every reading of the clock.
\<close>

theorem sequence_pass_raises:
  "analyzeActiveGestures clock abc_sequence
     = Raised (TypeError ''this.analyzeSequence is not a function'') abc_sequence
   \<and> map_option ptype (map_of (patterns abc_sequence) ''abc'')
       = Some (Sequence \<lparr>generator = abc_steps, currentStep = 0, timeout = 5000,
                          sequence = abc_steps\<rparr>)
   \<and> invoked abc_sequence = []"
  by (simp add: abc_sequence_def registerSequencePattern_def startDetection_def
        activate_all_def addGestureHandler_def registerPattern_def new_detector_def
        analyzeActiveGestures_def analyze_pattern_def evaluate_def)

text \<open>
  Claim C9 at the failing input. The stroke \<open>line_points\<close> is a line in the sense of the
  specification for \<open>minLength = 100\<close> and \<open>maxDeviation = 20\<close>, yet the pass over the
  started registration made by \<open>mouseLine(100, 20)\<close> evaluates it to \<open>{matches: false}\<close>,
  as it does every line registration, and ends without calling the handler.
\<close>

theorem mouse_line_never_matches:
  "is_line line_points \<lparr>minLength = 100, maxDeviation = 20\<rparr>
   \<and> map_option (\<lambda>p. evaluate p line_gesture) (map_of (patterns line_gesture) ''line'')
       = Some (Inr NoMatch)
   \<and> analyzeActiveGestures clock line_gesture = Done line_gesture
   \<and> invoked line_gesture = []
   \<and> evaluate (p\<lparr>ptype := Mouse_line opts\<rparr>) s = Inr NoMatch"
  by (simp add: is_line_def line_points_def distance_def perpendicular_distance_def
        line_gesture_def mouseLine_def startDetection_def activate_all_def
        addGestureHandler_def registerPattern_def new_detector_def
        analyzeActiveGestures_def analyze_pattern_def evaluate_def)


section \<open>Subscriptions are held by their wrappers\<close>

lemma made_wrapper_iff:
  "(case f of Wrapper k \<Rightarrow> k < n | UserFn h \<Rightarrow> False) \<longleftrightarrow> (\<exists>k. f = Wrapper k \<and> k < n)"
  by (cases f) auto

lemma valid_set_iff:
  "valid_set n fs \<longleftrightarrow>
     fs \<noteq> [] \<and> distinct fs \<and> (\<forall>f \<in> set fs. \<exists>k. f = Wrapper k \<and> k < n)"
  by (simp add: valid_set_def list_all_iff made_wrapper_iff)

lemma valid_set_mono: "valid_set n fs \<Longrightarrow> n \<le> m \<Longrightarrow> valid_set m fs"
  unfolding valid_set_iff by (meson less_le_trans)

lemma valid_set_user: "valid_set n fs \<Longrightarrow> UserFn h \<notin> set fs"
  unfolding valid_set_iff by blast

lemma valid_set_add:
  assumes "fs = [] \<or> valid_set n fs"
  shows "valid_set (Suc n) (set_add (Wrapper n) fs)"
proof (cases "fs = []")
  case True
  then show ?thesis by (simp add: valid_set_iff set_add_def)
next
  case False
  then have v: "valid_set n fs" using assms by simp
  then have "Wrapper n \<notin> set fs" unfolding valid_set_iff by blast
  then have "set_add (Wrapper n) fs = fs @ [Wrapper n]" by (simp add: set_add_def)
  moreover have "valid_set (Suc n) (fs @ [Wrapper n])"
    using v \<open>Wrapper n \<notin> set fs\<close> unfolding valid_set_iff
    by (simp add: less_Suc_eq) blast
  ultimately show ?thesis by simp
qed

lemma valid_set_delete:
  assumes "valid_set n fs" "set_delete f fs \<noteq> []"
  shows "valid_set n (set_delete f fs)"
  using assms unfolding valid_set_iff set_delete_def by (simp add: distinct_removeAll)

lemma well_formedI:
  assumes "\<And>e fs. (e, fs) \<in> set (listeners r) \<Longrightarrow> valid_set (length (wrapped r)) fs"
  shows "well_formed r"
  using assms by (auto simp: well_formed_def list_all_iff)

lemma well_formedD:
  "well_formed r \<Longrightarrow> (e, fs) \<in> set (listeners r) \<Longrightarrow> valid_set (length (wrapped r)) fs"
  by (auto simp: well_formed_def list_all_iff)

lemma set_update_subset: "set (AList.update k v al) \<subseteq> insert (k, v) (set al)"
  by (induction al) auto

lemma update_same: "map_of al k = Some v \<Longrightarrow> AList.update k v al = al"
  by (induction al) (auto split: if_splits)

lemma subscribers_valid:
  assumes "well_formed r"
  shows "subscribers r e = [] \<or> valid_set (length (wrapped r)) (subscribers r e)"
proof (cases "map_of (listeners r) e")
  case None
  then show ?thesis by (simp add: subscribers_def)
next
  case (Some fs)
  then have "(e, fs) \<in> set (listeners r)" by (rule map_of_SomeD)
  with assms have "valid_set (length (wrapped r)) fs" by (rule well_formedD)
  then show ?thesis using Some by (simp add: subscribers_def)
qed

lemma on_result:
  "fst (on e h opts r) = Unsubscribe e (Wrapper (length (wrapped r)))"
  "listeners (snd (on e h opts r))
     = AList.update e (set_add (Wrapper (length (wrapped r))) (subscribers r e)) (listeners r)"
  "wrapped (snd (on e h opts r)) = wrapped r @ [(h, opts)]"
  "activeListeners (snd (on e h opts r)) = activeListeners r + 1"
  by (simp_all add: on_def wrapHandler_def subscribers_def Let_def update_conv'
        split: option.split)

lemma well_formed_new: "well_formed new_registry"
  by (simp add: well_formed_def new_registry_def)

lemma well_formed_on:
  assumes "well_formed r"
  shows "well_formed (snd (on e h opts r))"
proof (rule well_formedI)
  fix e' fs
  let ?w = "Wrapper (length (wrapped r))"
  assume "(e', fs) \<in> set (listeners (snd (on e h opts r)))"
  then have "(e', fs) \<in> insert (e, set_add ?w (subscribers r e)) (set (listeners r))"
    using set_update_subset [of e "set_add ?w (subscribers r e)" "listeners r"]
    by (auto simp: on_result)
  then consider "fs = set_add ?w (subscribers r e)" | "(e', fs) \<in> set (listeners r)"
    by auto
  then have "valid_set (Suc (length (wrapped r))) fs"
  proof cases
    case 1
    then show ?thesis using valid_set_add [OF subscribers_valid [OF assms, of e]] by simp
  next
    case 2
    with assms have "valid_set (length (wrapped r)) fs" by (rule well_formedD)
    then show ?thesis by (rule valid_set_mono) simp
  qed
  then show "valid_set (length (wrapped (snd (on e h opts r)))) fs"
    by (simp add: on_result)
qed

lemma off_unknown_event:
  "map_of (listeners r) e = None \<Longrightarrow> off e f r = (False, r)"
  by (simp add: off_def)

lemma off_absent:
  assumes "map_of (listeners r) e = Some fs" "f \<notin> set fs" "fs \<noteq> []"
  shows "off e f r = (False, r)"
  using assms by (simp add: off_def set_delete_def Let_def update_same)

lemma off_user_function:
  assumes "well_formed r"
  shows "off e (UserFn h) r = (False, r)"
proof (cases "map_of (listeners r) e")
  case None
  then show ?thesis by (rule off_unknown_event)
next
  case (Some fs)
  then have "(e, fs) \<in> set (listeners r)" by (rule map_of_SomeD)
  with assms have v: "valid_set (length (wrapped r)) fs" by (rule well_formedD)
  then have "fs \<noteq> []" by (simp add: valid_set_iff)
  moreover have "UserFn h \<notin> set fs" using v by (rule valid_set_user)
  ultimately show ?thesis using Some by (intro off_absent) simp_all
qed

lemma off_listeners:
  assumes "map_of (listeners r) e = Some fs"
  shows "listeners (snd (off e f r)) =
           (if set_delete f fs = [] then AList.delete e (listeners r)
            else AList.update e (set_delete f fs) (listeners r))"
    and "wrapped (snd (off e f r)) = wrapped r"
  using assms by (simp_all add: off_def Let_def delete_update_same)

lemma well_formed_off:
  assumes "well_formed r"
  shows "well_formed (snd (off e f r))"
proof (cases "map_of (listeners r) e")
  case None
  then show ?thesis using assms by (simp add: off_unknown_event)
next
  case (Some fs)
  have m: "(e, fs) \<in> set (listeners r)" using Some by (rule map_of_SomeD)
  have v: "valid_set (length (wrapped r)) fs" using assms m by (rule well_formedD)
  show ?thesis
  proof (rule well_formedI)
    fix e' fs'
    assume a: "(e', fs') \<in> set (listeners (snd (off e f r)))"
    have "valid_set (length (wrapped r)) fs'"
    proof (cases "set_delete f fs = []")
      case True
      then have "(e', fs') \<in> set (AList.delete e (listeners r))"
        using a by (simp add: off_listeners [OF Some])
      then have "(e', fs') \<in> set (listeners r)" by (auto simp: AList.delete_eq)
      with assms show ?thesis by (rule well_formedD)
    next
      case False
      then have "(e', fs') \<in> set (AList.update e (set_delete f fs) (listeners r))"
        using a by (simp add: off_listeners [OF Some])
      then have "(e', fs') \<in> insert (e, set_delete f fs) (set (listeners r))"
        using set_update_subset [of e "set_delete f fs" "listeners r"] by auto
      then consider "fs' = set_delete f fs" | "(e', fs') \<in> set (listeners r)" by auto
      then show ?thesis
      proof cases
        case 1
        then show ?thesis using valid_set_delete [OF v False] by simp
      next
        case 2
        with assms show ?thesis by (rule well_formedD)
      qed
    qed
    then show "valid_set (length (wrapped (snd (off e f r)))) fs'"
      by (simp add: off_listeners [OF Some])
  qed
qed

lemma well_formed_destroy: "well_formed (destroy r)"
  by (simp add: well_formed_def destroy_def)

lemma well_formed_apply_call: "well_formed r \<Longrightarrow> well_formed (apply_call c r)"
  by (cases c) (simp_all add: well_formed_on well_formed_off well_formed_destroy)

lemma well_formed_foldl:
  "well_formed r \<Longrightarrow> well_formed (foldl (\<lambda>r c. apply_call c r) r calls)"
  by (induction calls arbitrary: r) (simp_all add: well_formed_apply_call)

lemma well_formed_after_calls: "well_formed (after_calls calls)"
  unfolding after_calls_def by (rule well_formed_foldl) (rule well_formed_new)

lemma subscribers_on:
  "subscribers (snd (on e h opts r)) e = set_add (Wrapper (length (wrapped r))) (subscribers r e)"
  by (simp add: subscribers_def on_result update_conv')

lemma off_present:
  assumes "f \<in> set (subscribers r e)"
  shows "fst (off e f r)" and "f \<notin> set (subscribers (snd (off e f r)) e)"
proof -
  obtain fs where fs: "map_of (listeners r) e = Some fs" "f \<in> set fs"
    using assms by (cases "map_of (listeners r) e") (auto simp: subscribers_def)
  show "fst (off e f r)" using fs by (simp add: off_def Let_def)
  show "f \<notin> set (subscribers (snd (off e f r)) e)"
    using fs
    by (simp add: off_def Let_def subscribers_def set_delete_def update_conv' delete_conv'
          split: option.split)
qed

lemma off_keeps:
  assumes "w \<in> set (subscribers r e)" "f \<noteq> w \<or> e' \<noteq> e"
  shows "w \<in> set (subscribers (snd (off e' f r)) e)"
proof (cases "map_of (listeners r) e'")
  case None
  then show ?thesis using assms by (simp add: off_unknown_event)
next
  case (Some fs)
  show ?thesis
  proof (cases "e' = e")
    case True
    then have fs: "subscribers r e = fs" using Some by (simp add: subscribers_def)
    then have w: "w \<in> set (set_delete f fs)" using assms True by (simp add: set_delete_def)
    then have ne: "set_delete f fs \<noteq> []" by auto
    have "listeners (snd (off e f r)) = AList.update e (set_delete f fs) (listeners r)"
      using Some True ne by (simp add: off_listeners)
    then have "subscribers (snd (off e f r)) e = set_delete f fs"
      by (simp add: subscribers_def update_conv')
    then show ?thesis using w True by simp
  next
    case False
    then show ?thesis
      using assms by (simp add: subscribers_def off_listeners [OF Some] update_conv' delete_conv')
  qed
qed

text \<open>
  Claim C10. In the registry after any sequence of calls, \<open>off\<close> with a function of the
  application returns false and changes nothing, for every event name. In particular,
  after \<open>on(eventName, handler, options)\<close> the set of the event holds the closure that
  \<open>wrapHandler\<close> made around \<open>handler\<close>, not \<open>handler\<close>: \<open>off(eventName, handler)\<close> returns
  false and leaves the registry, and so the subscription, as it is, and so does \<open>off\<close> with
  any function other than the closure. The function \<open>on\<close> returned calls \<open>off\<close> with the
  closure: it returns true and the closure is gone from the set.
\<close>

theorem off_with_original_handler:
  "off e0 (UserFn h0) (after_calls calls) = (False, after_calls calls)
   \<and> (let r = after_calls calls;
           unsub = fst (on eventName (UserFn h) opts r);
           r1 = snd (on eventName (UserFn h) opts r)
       in is_wrapper (wrapper_of unsub)
        \<and> wrapper_of unsub \<in> set (subscribers r1 eventName)
        \<and> last (wrapped r1) = (UserFn h, opts)
        \<and> off eventName (UserFn h) r1 = (False, r1)
        \<and> (\<forall>e f. f \<noteq> wrapper_of unsub \<longrightarrow>
               wrapper_of unsub \<in> set (subscribers (snd (off e f r1)) eventName))
        \<and> call_unsubscribe unsub r1 = off eventName (wrapper_of unsub) r1
        \<and> fst (call_unsubscribe unsub r1)
        \<and> wrapper_of unsub \<notin> set (subscribers (snd (call_unsubscribe unsub r1)) eventName))"
proof -
  let ?r = "after_calls calls"
  let ?w = "Wrapper (length (wrapped ?r))"
  let ?r1 = "snd (on eventName (UserFn h) opts ?r)"
  have wf: "well_formed ?r" by (rule well_formed_after_calls)
  have wf1: "well_formed ?r1" using wf by (rule well_formed_on)
  have u: "fst (on eventName (UserFn h) opts ?r) = Unsubscribe eventName ?w"
    by (simp add: on_result)
  have mem: "?w \<in> set (subscribers ?r1 eventName)"
    by (simp add: subscribers_on set_add_def)
  have "off e0 (UserFn h0) ?r = (False, ?r)" using wf by (rule off_user_function)
  moreover have "off eventName (UserFn h) ?r1 = (False, ?r1)" using wf1 by (rule off_user_function)
  moreover have "last (wrapped ?r1) = (UserFn h, opts)" by (simp add: on_result)
  moreover have "\<forall>e f. f \<noteq> ?w \<longrightarrow> ?w \<in> set (subscribers (snd (off e f ?r1)) eventName)"
    using off_keeps [OF mem] by blast
  moreover have "fst (off eventName ?w ?r1)" using mem by (rule off_present)
  moreover have "?w \<notin> set (subscribers (snd (off eventName ?w ?r1)) eventName)"
    using mem by (rule off_present)
  ultimately show ?thesis
    using mem by (simp add: Let_def u)
qed

theorem off_with_original_handler_witness:
  "UserFn 1 \<noteq> Wrapper 1
   \<and> after_calls [On ''click'' (UserFn 7) plain]
       = \<lparr>listeners = [(''click'', [Wrapper 0])], activeListeners = 1,
          wrapped = [(UserFn 7, plain)]\<rparr>
   \<and> on ''gesture'' (UserFn 1) plain (after_calls [On ''click'' (UserFn 7) plain])
       = (Unsubscribe ''gesture'' (Wrapper 1),
          \<lparr>listeners = [(''click'', [Wrapper 0]), (''gesture'', [Wrapper 1])],
           activeListeners = 2, wrapped = [(UserFn 7, plain), (UserFn 1, plain)]\<rparr>)
   \<and> off ''gesture'' (UserFn 1)
         (snd (on ''gesture'' (UserFn 1) plain (after_calls [On ''click'' (UserFn 7) plain])))
       = (False,
          snd (on ''gesture'' (UserFn 1) plain (after_calls [On ''click'' (UserFn 7) plain])))
   \<and> call_unsubscribe (Unsubscribe ''gesture'' (Wrapper 1))
         (snd (on ''gesture'' (UserFn 1) plain (after_calls [On ''click'' (UserFn 7) plain])))
       = (True,
          \<lparr>listeners = [(''click'', [Wrapper 0])], activeListeners = 1,
           wrapped = [(UserFn 7, plain), (UserFn 1, plain)]\<rparr>)"
  using off_with_original_handler
          [of "''gesture''" 1 "[On ''click'' (UserFn 7) plain]" "''gesture''" 1 plain]
  by (simp add: after_calls_def new_registry_def on_def off_def wrapHandler_def set_add_def
        set_delete_def Let_def)

end
